theory Spec2Isabelle
  imports Complex_Main "HOL-Library.Stream" "HOL-Library.Multiset"
begin

section \<open>Numbers, errors and the random source\<close>

text \<open>
  The notebooks compute with binary64 floating-point numbers. The model idealises a
  finite float as the real number it stands for (rounding and overflow are not
  modelled) and keeps the three non-finite values apart, because NumPy's scalar and
  array division returns them instead of raising: a finite number divided by zero is
  an infinity carrying the sign of the numerator, and \<open>0 / 0\<close> is NaN. A sample that
  is exactly zero arises as \<open>loc + scale * z\<close> and is therefore the positive zero.
\<close>

datatype f64 = Finite real | PosInf | NegInf | NaN

text \<open>
  \<open>ZeroDivisionError\<close> is the only exception a cell of the notebooks can raise on
  its numeric path. \<open>InvalidInput\<close> is the rejection the specification names for a
  zero trial count; no cell raises it.
\<close>

datatype error = ZeroDivisionError | InvalidInput

text \<open>NumPy true division of two finite float64 values (warns, never raises).\<close>

definition np_divide :: "real \<Rightarrow> real \<Rightarrow> f64" where
  "np_divide a b =
     (if b \<noteq> 0 then Finite (a / b)
      else if 0 < a then PosInf
      else if a < 0 then NegInf
      else NaN)"

text \<open>The comparison \<open>>\<close> of float64 values: every comparison with NaN is false.\<close>

fun np_greater :: "f64 \<Rightarrow> f64 \<Rightarrow> bool" where
  "np_greater NaN _ = False"
| "np_greater _ NaN = False"
| "np_greater (Finite a) (Finite b) = (b < a)"
| "np_greater (Finite a) PosInf = False"
| "np_greater (Finite a) NegInf = True"
| "np_greater PosInf PosInf = False"
| "np_greater PosInf _ = True"
| "np_greater NegInf _ = False"

text \<open>
  Python's \<open>/\<close> with a Python \<open>float\<close> divisor and a Python number as dividend:
  a zero divisor raises.
\<close>

definition py_truediv :: "real \<Rightarrow> real \<Rightarrow> error + f64" where
  "py_truediv a b = (if b = 0 then Inl ZeroDivisionError else Inr (Finite (a / b)))"

text \<open>
  The pseudo-random generator is global state of the library, mutated by every
  sampling call. It is modelled as the stream of variates it has yet to deliver and
  is threaded through every call: standard-normal variates for \<open>scipy.stats.norm\<close>,
  variates of the unit interval for \<open>numpy.random.uniform\<close>. Both samplers are the
  affine images of the variate that the libraries compute.
\<close>

type_synonym rng = "real stream"

definition norm_rvs :: "real \<Rightarrow> real \<Rightarrow> rng \<Rightarrow> real \<times> rng" where
  "norm_rvs loc scale g = (loc + scale * shd g, stl g)"

definition norm_rvs_n :: "real \<Rightarrow> real \<Rightarrow> nat \<Rightarrow> rng \<Rightarrow> real list \<times> rng" where
  "norm_rvs_n loc scale n g = (map (\<lambda>z. loc + scale * z) (stake n g), sdrop n g)"

definition uniform :: "real \<Rightarrow> real \<Rightarrow> rng \<Rightarrow> real \<times> rng" where
  "uniform low high g = (low + (high - low) * shd g, stl g)"

section \<open>Hoop-strength failure probability\<close>

text \<open>
  \<^verbatim>\<open>
  def calculate_stress():
      P = 10
      radius = scipy.stats.norm(60, 60*0.05).rvs()
      W = scipy.stats.norm(4, 4*0.05).rvs()
      return P * radius / W

  def calculate_yield_strength():
      return scipy.stats.norm(200, 200*0.1).rvs()
  \<close>
\<close>

definition calculate_stress :: "rng \<Rightarrow> f64 \<times> rng" where
  "calculate_stress g =
     (let P = 10;
          (radius, g1) = norm_rvs 60 (60 * 0.05) g;
          (W, g2) = norm_rvs 4 (4 * 0.05) g1
      in (np_divide (P * radius) W, g2))"

definition calculate_yield_strength :: "rng \<Rightarrow> real \<times> rng" where
  "calculate_yield_strength g = norm_rvs 200 (200 * 0.1) g"

text \<open>
  The simulation cell. \<open>numpy.empty(N)\<close> allocates \<open>N\<close> uninitialised floats; the
  loop writes every index before reading it, and the model fills the fresh arrays
  with zeros. The index \<open>i\<close> runs over \<open>range(N)\<close> and both arrays have length \<open>N\<close>,
  so every access of the loop is in range.
  \<^verbatim>\<open>
  N = 1000
  failures = 0
  stresses = numpy.empty(N)
  yield_strengths = numpy.empty(N)
  for i in range(N):
      stresses[i] = calculate_stress()
      yield_strengths[i] = calculate_yield_strength()
      if stresses[i] > yield_strengths[i]:
          failures += 1
  \<close>
\<close>

record simulation =
  failures :: nat
  stresses :: "f64 list"
  yield_strengths :: "f64 list"
  gen :: rng

definition numpy_empty :: "nat \<Rightarrow> f64 list" where
  "numpy_empty n = replicate n (Finite 0)"

definition trial :: "simulation \<Rightarrow> nat \<Rightarrow> simulation" where
  "trial s i =
     (let (stress, g1) = calculate_stress (gen s);
          stresses' = (stresses s)[i := stress];
          (strength, g2) = calculate_yield_strength g1;
          yield_strengths' = (yield_strengths s)[i := Finite strength]
      in \<lparr> failures =
             (if np_greater (stresses' ! i) (yield_strengths' ! i)
              then failures s + 1 else failures s),
           stresses = stresses',
           yield_strengths = yield_strengths',
           gen = g2 \<rparr>)"

definition run_simulation :: "nat \<Rightarrow> rng \<Rightarrow> simulation" where
  "run_simulation N g =
     foldl trial
       \<lparr> failures = 0, stresses = numpy_empty N, yield_strengths = numpy_empty N, gen = g \<rparr>
       [0..<N]"

text \<open>
  The cell that reports the estimate: \<^verbatim>\<open>failures / float(N)\<close>, a Python \<open>int\<close>
  divided by a Python \<open>float\<close>.
\<close>

definition probability_of_failure :: "nat \<Rightarrow> nat \<Rightarrow> error + f64" where
  "probability_of_failure fails N = py_truediv (real fails) (real N)"

text \<open>
  The vectorised cell. Each \<open>rvs(N)\<close> draws a whole batch; the arithmetic and the
  comparison are elementwise over arrays of length \<open>N\<close>; \<open>sum()\<close> counts the true
  entries and yields a NumPy integer, so the final division is NumPy's.
  \<^verbatim>\<open>
  N = 10000
  P = 10
  radius = scipy.stats.norm(60, 60*0.05).rvs(N)
  W = scipy.stats.norm(4, 4*0.05).rvs(N)
  yield_strength = scipy.stats.norm(200, 200*0.1).rvs(N)
  ((P * radius / W) > yield_strength).sum() / float(N)
  \<close>
\<close>

definition run_simulation_vectorized :: "nat \<Rightarrow> rng \<Rightarrow> f64" where
  "run_simulation_vectorized N g =
     (let P = 10;
          (radius, g1) = norm_rvs_n 60 (60 * 0.05) N g;
          (W, g2) = norm_rvs_n 4 (4 * 0.05) N g1;
          (yield_strength, g3) = norm_rvs_n 200 (200 * 0.1) N g2;
          exceeds = map2 np_greater
                      (map2 np_divide (map (\<lambda>r. P * r) radius) W)
                      (map Finite yield_strength)
      in np_divide (real (length (filter id exceeds))) (real N))"

section \<open>Monte Carlo integration\<close>



text \<open>
  \<^verbatim>\<open>
  N = 100000
  accum = 0
  for i in range(N):
      x = numpy.random.uniform(2, 3)
      accum += x**2 + 4*x*numpy.sin(x)
  measure = 3 - 2
  measure * accum/float(N)
  \<close>
\<close>

definition second_step :: "real \<times> rng \<Rightarrow> nat \<Rightarrow> real \<times> rng" where
  "second_step = (\<lambda>(accum, g) i.
     let (x, g') = uniform 2 3 g
     in (accum + (x ^ 2 + 4 * x * sin x), g'))"

definition second_monte_carlo :: "nat \<Rightarrow> rng \<Rightarrow> error + f64" where
  "second_monte_carlo N g =
     (let (accum, g') = foldl second_step (0, g) [0..<N];
          measure = 3 - 2
      in py_truediv (measure * accum) (real N))"



section \<open>Analytical integration\<close>

text \<open>
  The analytical cells call the symbolic-algebra library. An expression in the
  symbol \<open>x\<close> is modelled as the real function it denotes and \<open>subs(x, v)\<close> as
  application. \<open>sympy.integrate\<close> is a parameter of each cell; what the cells rely
  on is its contract, that the result is an antiderivative of the expression.
\<close>

definition antiderivative :: "(real \<Rightarrow> real) \<Rightarrow> (real \<Rightarrow> real) \<Rightarrow> bool" where
  "antiderivative F f \<longleftrightarrow> (\<forall>x. (F has_real_derivative f x) (at x))"

text \<open>
  \<^verbatim>\<open>
  x = sympy.Symbol('x')
  integral = sympy.integrate(x**2)
  integral.subs(x, 5) - integral.subs(x, 1)
  \<close>
  The next cell converts the same difference with \<open>float\<close>; the conversion is
  \<open>py_float\<close> below.
\<close>

definition first_analytical :: "((real \<Rightarrow> real) \<Rightarrow> real \<Rightarrow> real) \<Rightarrow> real" where
  "first_analytical integrate =
     (let integral = integrate (\<lambda>x. x ^ 2)
      in integral 5 - integral 1)"

text \<open>
  \<^verbatim>\<open>
  x = sympy.Symbol('x')
  d1 = sympy.integrate(x**2 + 4 * x * sympy.sin(x))
  sol = d1.subs(x, 3) - d1.subs(x, 2)
  float(sol)
  \<close>
\<close>

definition second_analytical :: "((real \<Rightarrow> real) \<Rightarrow> real \<Rightarrow> real) \<Rightarrow> real" where
  "second_analytical integrate =
     (let d1 = integrate (\<lambda>x. x ^ 2 + 4 * x * sin x);
          sol = d1 3 - d1 2
      in sol)"


text \<open>
  \<open>float\<close> of an exact rational: the nearest binary64 number, ties to the even
  significand. A number between \<open>2\<^sup>e\<close> and \<open>2\<^sup>e\<^sup>+\<^sup>1\<close> has 53 significant bits,
  so the spacing of its neighbours is \<open>2\<^sup>e\<^sup>-\<^sup>5\<^sup>2\<close> (overflow and subnormal numbers
  are out of the cells' range and not modelled).
\<close>

definition round_half_even :: "real \<Rightarrow> int" where
  "round_half_even x =
     (let n = \<lfloor>x\<rfloor>; r = x - of_int n
      in if r < 1 / 2 then n
         else if 1 / 2 < r then n + 1
         else if even n then n else n + 1)"

definition py_float :: "real \<Rightarrow> real" where
  "py_float x =
     (if x = 0 then 0
      else let e = \<lfloor>log 2 \<bar>x\<bar>\<rfloor>;
               ulp = 2 powr of_int (e - 52)
           in of_int (round_half_even (x / ulp)) * ulp)"

section \<open>Derived notions used in the statements\<close>

text \<open>
  Trial \<open>i\<close> of the loop consumes the variates \<open>3 i\<close>, \<open>3 i + 1\<close> and \<open>3 i + 2\<close> of
  the generator: radius, wall thickness, yield strength, in the order of the calls.
\<close>

definition stress_of :: "rng \<Rightarrow> nat \<Rightarrow> f64" where
  "stress_of g i = np_divide (10 * (60 + 3 * g !! (3 * i))) (4 + 0.2 * g !! (3 * i + 1))"

definition strength_of :: "rng \<Rightarrow> nat \<Rightarrow> f64" where
  "strength_of g i = Finite (200 + 20 * g !! (3 * i + 2))"

definition exceeds_at :: "rng \<Rightarrow> nat \<Rightarrow> bool" where
  "exceeds_at g i = np_greater (stress_of g i) (strength_of g i)"

text \<open>
  The number of trials whose recorded stress strictly exceeds their recorded yield
  strength, read off the two sequences a run leaves behind.
\<close>

definition count_exceeding :: "simulation \<Rightarrow> nat" where
  "count_exceeding r =
     length (filter (\<lambda>(stress, strength). np_greater stress strength)
               (zip (stresses r) (yield_strengths r)))"

text \<open>
  The two outcomes the specification allows for a zero trial count: a NaN result, or
  an upfront rejection.
\<close>

definition zero_trial_policy :: "error + f64 \<Rightarrow> bool" where
  "zero_trial_policy r \<longleftrightarrow> r = Inr NaN \<or> r = Inl InvalidInput"

text \<open>Generators for the worked instances below.\<close>

definition demo_gen :: rng where
  "demo_gen = [0, 0, 0, 20, 0, -3] @- sconst 0"

definition batch_gen :: rng where
  "batch_gen = [0, 20, 0, 0, 0, -3] @- sconst 0"

definition swapped_gen :: rng where
  "swapped_gen = [20, 0, -3, 0, 0, 0] @- sconst 0"

text \<open>
  The point the sampling cells evaluate the integrand at when the generator has
  already delivered \<open>k\<close> variates.
\<close>

definition point :: "real \<Rightarrow> real \<Rightarrow> rng \<Rightarrow> nat \<Rightarrow> real" where
  "point low high g k = fst (uniform low high (sdrop k g))"




section \<open>Properties of the stress computation\<close>

lemma snth_Stream_numeral: "(x ## s) !! numeral k = s !! pred_numeral k"
  by (simp add: numeral_eq_Suc)

lemma calculate_stress_eq:
  "calculate_stress g =
     (np_divide (10 * (60 + 3 * shd g)) (4 + 0.2 * shd (stl g)), stl (stl g))"
  by (simp add: calculate_stress_def norm_rvs_def)

text \<open>
  C1. \<open>calculate_stress\<close> draws the radius as \<open>60 + 3.0 z\<^sub>1\<close> and the wall thickness
  as \<open>4 + 0.2 z\<^sub>2\<close> (Normal(60, 3.0) and Normal(4, 0.2) applied to the generator's next
  two variates) and returns \<open>10 * radius / thickness\<close>; with the samples fixed at
  their deterministic values 60 and 4 the result is exactly 150.
\<close>

theorem calculate_stress_formula:
  "(let radius = 60 + 3.0 * shd g; W = 4 + 0.2 * shd (stl g)
    in calculate_stress g = (np_divide (10 * radius) W, stl (stl g))
       \<and> (W \<noteq> 0 \<longrightarrow> fst (calculate_stress g) = Finite (10 * radius / W)))
   \<and> fst (calculate_stress (0 ## 0 ## g)) = Finite 150"
  by (simp add: calculate_stress_eq np_divide_def Let_def)

theorem calculate_stress_formula_witness:
  "(4 + 0.2 * shd (stl (1 ## (-5) ## sconst 0)) \<noteq> (0::real))
   \<and> fst (calculate_stress (1 ## (-5) ## sconst 0)) = Finite 210
   \<and> fst (calculate_stress (0 ## 0 ## sconst 0)) = Finite 150"
  using calculate_stress_formula [of "1 ## (-5) ## sconst 0"]
    calculate_stress_formula [of "sconst 0"]
  by (simp add: Let_def np_divide_def)

text \<open>
  C8. The stress computation has no guard on the wall thickness. It returns NumPy's
  quotient for every pair of samples: when the thickness sample is exactly zero the
  division by zero yields no finite stress (an infinity with the sign of the radius,
  NaN for a zero radius), and when the thickness sample is negative the quotient is
  returned as it is, a negative stress for every positive radius. No case is
  rejected and the generator has advanced by the two draws in each of them.
\<close>

theorem calculate_stress_unguarded:
  "(let radius = 60 + 3 * shd g; W = 4 + 0.2 * shd (stl g)
    in snd (calculate_stress g) = stl (stl g)
       \<and> (W = 0 \<longrightarrow>
            fst (calculate_stress g)
              = (if 0 < radius then PosInf else if radius < 0 then NegInf else NaN))
       \<and> (W < 0 \<longrightarrow>
            (\<exists>v. fst (calculate_stress g) = Finite v \<and> v = 10 * radius / W
                 \<and> (v < 0 \<longleftrightarrow> 0 < radius))))"
  by (simp add: calculate_stress_eq np_divide_def Let_def divide_less_0_iff
      zero_less_mult_iff)

theorem calculate_stress_unguarded_witness:
  "4 + 0.2 * shd (stl (0 ## (-20) ## sconst 0)) = (0::real)
   \<and> fst (calculate_stress (0 ## (-20) ## sconst 0)) = PosInf
   \<and> 4 + 0.2 * shd (stl (0 ## (-40) ## sconst 0)) < (0::real)
   \<and> fst (calculate_stress (0 ## (-40) ## sconst 0)) = Finite (-150)"
  using calculate_stress_unguarded [of "0 ## (-20) ## sconst 0"]
    calculate_stress_unguarded [of "0 ## (-40) ## sconst 0"]
  by (simp add: Let_def)

section \<open>Properties of the simulation loop\<close>

lemma trial_eq:
  "trial s i =
     \<lparr> failures =
         (if np_greater ((stresses s)[i := stress_of (gen s) 0] ! i)
               ((yield_strengths s)[i := strength_of (gen s) 0] ! i)
          then failures s + 1 else failures s),
       stresses = (stresses s)[i := stress_of (gen s) 0],
       yield_strengths = (yield_strengths s)[i := strength_of (gen s) 0],
       gen = sdrop 3 (gen s) \<rparr>"
  by (simp add: trial_def calculate_stress_eq calculate_yield_strength_def norm_rvs_def
      stress_of_def strength_of_def numeral_3_eq_3 Let_def)

lemma stress_of_sdrop: "stress_of (sdrop (3 * k) g) 0 = stress_of g k"
  by (simp add: stress_of_def sdrop_snth)

lemma strength_of_sdrop: "strength_of (sdrop (3 * k) g) 0 = strength_of g k"
  by (simp add: strength_of_def sdrop_snth)

text \<open>
  The loop invariant: after \<open>k\<close> iterations the first \<open>k\<close> slots of both arrays hold
  the trials' values, the remaining slots are untouched, the counter holds the
  number of failing trials so far and the generator has delivered \<open>3 k\<close> variates.
\<close>

lemma loop_invariant:
  assumes "k \<le> N"
  shows "foldl trial
           \<lparr> failures = 0, stresses = numpy_empty N, yield_strengths = numpy_empty N,
             gen = g \<rparr> [0..<k] =
     \<lparr> failures = length (filter (exceeds_at g) [0..<k]),
       stresses = map (stress_of g) [0..<k] @ replicate (N - k) (Finite 0),
       yield_strengths = map (strength_of g) [0..<k] @ replicate (N - k) (Finite 0),
       gen = sdrop (3 * k) g \<rparr>"
  using assms
proof (induction k)
  case 0
  then show ?case by (simp add: numpy_empty_def)
next
  case (Suc k)
  then have k: "k < N" by simp
  have upd: "(map f [0..<k] @ replicate (N - k) z)[k := v]
             = map f [0..<k] @ v # replicate (N - Suc k) z"
    for f :: "nat \<Rightarrow> f64" and z v
  proof -
    from k obtain m where m: "N - k = Suc m" "N - Suc k = m"
      by (metis Suc_diff_Suc diff_Suc_Suc)
    show ?thesis by (simp add: list_update_append m)
  qed
  have nth: "(map f [0..<k] @ v # zs) ! k = v" for f :: "nat \<Rightarrow> f64" and v zs
    by (simp add: nth_append)
  from Suc k show ?case
    by (simp add: trial_eq upd nth stress_of_sdrop strength_of_sdrop exceeds_at_def
        add.commute)
qed

lemma run_simulation_eq:
  "run_simulation N g =
     \<lparr> failures = length (filter (exceeds_at g) [0..<N]),
       stresses = map (stress_of g) [0..<N],
       yield_strengths = map (strength_of g) [0..<N],
       gen = sdrop (3 * N) g \<rparr>"
  using loop_invariant [of N N g] by (simp add: run_simulation_def)

lemma zip_map_same: "zip (map f xs) (map h xs) = map (\<lambda>x. (f x, h x)) xs"
  by (induction xs) simp_all

lemma count_exceeding_run:
  "count_exceeding (run_simulation N g) = length (filter (exceeds_at g) [0..<N])"
proof -
  have "(\<lambda>(stress, strength). np_greater stress strength)
          \<circ> (\<lambda>i. (stress_of g i, strength_of g i)) = exceeds_at g"
    by (simp add: fun_eq_iff exceeds_at_def)
  then show ?thesis
    by (simp add: count_exceeding_def run_simulation_eq zip_map_same filter_map)
qed

lemma failures_run: "failures (run_simulation N g) = count_exceeding (run_simulation N g)"
  by (simp add: count_exceeding_run) (simp add: run_simulation_eq)


lemma failures_card:
  "failures (run_simulation N g) = card {i. i < N \<and> exceeds_at g i}"
  by (simp add: run_simulation_eq length_filter_conv_card cong: conj_cong)

lemma demo_count: "count_exceeding (run_simulation 2 demo_gen) = 1"
  by (simp add: count_exceeding_run numeral_2_eq_2 exceeds_at_def stress_of_def
      strength_of_def np_divide_def demo_gen_def snth_Stream_numeral)



text \<open>
  C9 (as the code behaves). With \<open>N = 0\<close> the loop body never runs: the counter stays
  0, both arrays are empty and the generator is untouched. The division
  \<open>failures / float(N)\<close> then raises Python's \<open>ZeroDivisionError\<close>.
\<close>

theorem zero_trials_raise:
  "run_simulation 0 g = \<lparr> failures = 0, stresses = [], yield_strengths = [], gen = g \<rparr>
   \<and> probability_of_failure (failures (run_simulation 0 g)) 0 = Inl ZeroDivisionError"
  by (simp add: run_simulation_def numpy_empty_def probability_of_failure_def
      py_truediv_def)

text \<open>
  The outcome for \<open>N = 0\<close> is neither of the two the specification names: no NaN is
  returned and nothing is rejected as invalid input.
\<close>

theorem zero_trials_outside_policy:
  "\<not> zero_trial_policy (probability_of_failure (failures (run_simulation 0 (sconst 0))) 0)"
  by (simp add: run_simulation_def numpy_empty_def probability_of_failure_def
      py_truediv_def zero_trial_policy_def)

section \<open>The vectorised cell against the loop\<close>

lemma vectorized_eq:
  "run_simulation_vectorized N g =
     np_divide (real (length (filter
        (\<lambda>i. np_greater (np_divide (10 * (60 + 3 * g !! i)) (4 + 0.2 * g !! (N + i)))
                         (Finite (200 + 20 * g !! (2 * N + i)))) [0..<N]))) (real N)"
proof -
  have st: "stake N s = map (\<lambda>i. s !! i) [0..<N]" for s :: rng
    by (rule nth_equalityI) simp_all
  show ?thesis
    by (simp add: run_simulation_vectorized_def norm_rvs_n_def st sdrop_snth zip_map_same
        filter_map o_def mult_2 add.assoc)
qed

text \<open>
  C3 (as the code behaves). The batch cell draws all radii first, then all
  thicknesses, then all yield strengths, so trial \<open>i\<close> of a batch of \<open>N\<close> uses the
  variates \<open>i\<close>, \<open>N + i\<close> and \<open>2 N + i\<close>. For every \<open>N \<ge> 1\<close>, when each trial
  receives the same three samples in the batch cell as in the loop, the two cells
  return the same estimate: same formula, same distributions, same strict
  comparison, same count divided by \<open>N\<close>.
\<close>

theorem vectorized_agrees_with_loop:
  assumes "1 \<le> N"
    and "\<forall>i<N. g' !! i = g !! (3 * i) \<and> g' !! (N + i) = g !! (3 * i + 1)
              \<and> g' !! (2 * N + i) = g !! (3 * i + 2)"
  shows "probability_of_failure (failures (run_simulation N g)) N
         = Inr (run_simulation_vectorized N g')"
proof -
  have "filter (\<lambda>i. np_greater (np_divide (10 * (60 + 3 * g' !! i)) (4 + 0.2 * g' !! (N + i)))
                         (Finite (200 + 20 * g' !! (2 * N + i)))) [0..<N]
        = filter (exceeds_at g) [0..<N]"
    using assms(2)
    by (intro filter_cong) (simp_all add: exceeds_at_def stress_of_def strength_of_def)
  then have "run_simulation_vectorized N g'
        = np_divide (real (length (filter (exceeds_at g) [0..<N]))) (real N)"
    by (simp only: vectorized_eq)
  moreover have "failures (run_simulation N g) = length (filter (exceeds_at g) [0..<N])"
    by (simp add: run_simulation_eq)
  ultimately show ?thesis
    using assms(1) by (simp add: probability_of_failure_def py_truediv_def np_divide_def)
qed

theorem vectorized_agrees_with_loop_witness:
  "(1::nat) \<le> 2
   \<and> probability_of_failure (failures (run_simulation 2 demo_gen)) 2
       = Inr (run_simulation_vectorized 2 batch_gen)
   \<and> run_simulation_vectorized 2 batch_gen = Finite (1 / 2)"
proof -
  have "\<forall>i<2. batch_gen !! i = demo_gen !! (3 * i)
              \<and> batch_gen !! (2 + i) = demo_gen !! (3 * i + 1)
              \<and> batch_gen !! (2 * 2 + i) = demo_gen !! (3 * i + 2)"
    by (simp add: less_2_cases_iff batch_gen_def demo_gen_def snth_Stream_numeral)
  then show ?thesis
    using vectorized_agrees_with_loop [of 2 batch_gen demo_gen]
    by (simp add: failures_run demo_count probability_of_failure_def py_truediv_def)
qed

text \<open>
  With no trial at all the two cells part: the loop cell divides a Python \<open>int\<close> by
  \<open>0.0\<close> and raises, the batch cell divides a NumPy integer by \<open>0.0\<close> and returns NaN.
\<close>

theorem vectorized_differs_at_zero_trials:
  "probability_of_failure (failures (run_simulation 0 (sconst 0))) 0 = Inl ZeroDivisionError
   \<and> run_simulation_vectorized 0 (sconst 0) = NaN
   \<and> probability_of_failure (failures (run_simulation 0 (sconst 0))) 0
       \<noteq> Inr (run_simulation_vectorized 0 (sconst 0))"
  by (simp add: probability_of_failure_def py_truediv_def run_simulation_def vectorized_eq
      np_divide_def)

section \<open>Order of the trials\<close>

text \<open>
  C10. Let the generator deliver the same \<open>N\<close> trials in another order: trial \<open>i\<close> of
  the second run receives the three samples of trial \<open>p i\<close> of the first, for a
  permutation \<open>p\<close> of the trial numbers. Then the loop accumulates the same failure
  count, and the estimate is the same.
\<close>

theorem failures_permutation_invariant:
  assumes "bij_betw p {..<N} {..<N}"
    and "\<forall>i<N. g' !! (3 * i) = g !! (3 * p i) \<and> g' !! (3 * i + 1) = g !! (3 * p i + 1)
              \<and> g' !! (3 * i + 2) = g !! (3 * p i + 2)"
  shows "failures (run_simulation N g') = failures (run_simulation N g)
       \<and> probability_of_failure (failures (run_simulation N g')) N
           = probability_of_failure (failures (run_simulation N g)) N"
proof -
  have same: "exceeds_at g' i = exceeds_at g (p i)" if "i < N" for i
    using assms(2) that by (simp add: exceeds_at_def stress_of_def strength_of_def)
  have img: "p ` {..<N} = {..<N}"
    using assms(1) by (simp add: bij_betw_def)
  have inj: "inj_on p {i. i < N \<and> exceeds_at g' i}"
    using assms(1) by (auto simp: bij_betw_def intro: inj_on_subset)
  have "p ` {i. i < N \<and> exceeds_at g' i} = {j. j < N \<and> exceeds_at g j}"
  proof (intro set_eqI iffI)
    fix j assume "j \<in> p ` {i. i < N \<and> exceeds_at g' i}"
    then obtain i where i: "i < N" "exceeds_at g' i" "j = p i" by auto
    from img i(1) have "p i < N" by blast
    with i same show "j \<in> {j. j < N \<and> exceeds_at g j}" by simp
  next
    fix j assume "j \<in> {j. j < N \<and> exceeds_at g j}"
    then have j: "j < N" "exceeds_at g j" by simp_all
    from img j(1) have "j \<in> p ` {..<N}" by simp
    then obtain i where i: "i < N" "p i = j" by auto
    with j same show "j \<in> p ` {i. i < N \<and> exceeds_at g' i}" by force
  qed
  then have "card {j. j < N \<and> exceeds_at g j} = card {i. i < N \<and> exceeds_at g' i}"
    using card_image [OF inj] by simp
  then show ?thesis by (simp add: failures_card)
qed

theorem failures_permutation_invariant_witness:
  "failures (run_simulation 2 swapped_gen) = failures (run_simulation 2 demo_gen)
   \<and> failures (run_simulation 2 demo_gen) = 1
   \<and> probability_of_failure (failures (run_simulation 2 swapped_gen)) 2
       = probability_of_failure (failures (run_simulation 2 demo_gen)) 2"
proof -
  have b: "bij_betw (\<lambda>i. 1 - i) {..<2::nat} {..<2}"
    by (rule bij_betw_byWitness [where f' = "\<lambda>i. 1 - i"]) auto
  have "\<forall>i<2. swapped_gen !! (3 * i) = demo_gen !! (3 * (1 - i))
              \<and> swapped_gen !! (3 * i + 1) = demo_gen !! (3 * (1 - i) + 1)
              \<and> swapped_gen !! (3 * i + 2) = demo_gen !! (3 * (1 - i) + 2)"
    by (simp add: less_2_cases_iff swapped_gen_def demo_gen_def snth_Stream_numeral)
  with b show ?thesis
    using failures_permutation_invariant [of "\<lambda>i. 1 - i" 2 swapped_gen demo_gen]
    by (simp add: failures_run demo_count)
qed

section \<open>Properties of the sampling cells\<close>

lemma point_eq: "point low high g k = low + (high - low) * g !! k"
  by (simp add: point_def uniform_def sdrop_snth)

lemma point_range:
  assumes "low \<le> high" "0 \<le> g !! k" "g !! k \<le> 1"
  shows "low \<le> point low high g k \<and> point low high g k \<le> high"
proof -
  have "(high - low) * g !! k \<le> (high - low) * 1"
    using assms by (intro mult_left_mono) simp_all
  moreover have "0 \<le> (high - low) * g !! k"
    using assms by simp
  ultimately show ?thesis by (simp add: point_eq)
qed

lemma accumulate_one_draw:
  assumes "\<And>accum g i. step (accum, g) i = (accum + f (shd g), stl g)"
  shows "foldl step (a, g) [0..<n] = (a + (\<Sum>i<n. f (g !! i)), sdrop n g)"
proof (induction n)
  case 0
  show ?case by simp
next
  case (Suc n)
  then show ?case by (simp add: assms sdrop_snth [of n g 0, simplified] add.assoc)
qed



lemma second_monte_carlo_eq:
  "second_monte_carlo N g
   = py_truediv ((3 - 2) * (\<Sum>i<N. (point 2 3 g i) ^ 2 + 4 * point 2 3 g i * sin (point 2 3 g i)))
       (real N)"
proof -
  have "foldl second_step (0, g) [0..<N]
        = (0 + (\<Sum>i<N. (2 + (3 - 2) * g !! i) ^ 2
                       + 4 * (2 + (3 - 2) * g !! i) * sin (2 + (3 - 2) * g !! i)), sdrop N g)"
    by (rule accumulate_one_draw) (simp add: second_step_def uniform_def)
  then show ?thesis by (simp add: second_monte_carlo_def point_eq)
qed





section \<open>Properties of the analytical cells\<close>

lemma antiderivative_difference:
  assumes "antiderivative F f" and "antiderivative G f"
  shows "F b - F a = G b - G a"
proof -
  have "\<forall>x. ((\<lambda>x. F x - G x) has_real_derivative 0) (at x)"
  proof
    fix x
    have "((\<lambda>x. F x - G x) has_real_derivative f x - f x) (at x)"
      using assms by (intro DERIV_diff) (simp_all add: antiderivative_def)
    then show "((\<lambda>x. F x - G x) has_real_derivative 0) (at x)" by simp
  qed
  then have "F b - G b = F a - G a"
    by (rule DERIV_isconst_all)
  then show ?thesis by simp
qed

lemma cube_antiderivative: "antiderivative (\<lambda>x. x ^ 3 / 3) (\<lambda>x. x ^ 2)"
  unfolding antiderivative_def
  by (auto intro!: derivative_eq_intros)

lemma second_antiderivative:
  "antiderivative (\<lambda>x. x ^ 3 / 3 - 4 * x * cos x + 4 * sin x) (\<lambda>x. x ^ 2 + 4 * x * sin x)"
  unfolding antiderivative_def
  by (auto intro!: derivative_eq_intros simp: algebra_simps)

lemma floor_log2:
  assumes "2 ^ k \<le> x" and "x < 2 ^ Suc k"
  shows "\<lfloor>log 2 x\<rfloor> = int k"
proof -
  have x: "0 < x" using assms(1) by (rule less_le_trans [rotated]) simp
  have "2 powr real_of_int (int k) \<le> x \<and> x < 2 powr real_of_int (int k + 1)"
    using assms by (simp add: powr_realpow powr_add)
  with x show ?thesis by (simp add: floor_log_eq_powr_iff)
qed

lemma py_float_normal:
  assumes "2 ^ k \<le> x" and "x < 2 ^ Suc k" and "k \<le> 52"
  shows "py_float x = of_int (round_half_even (x * 2 ^ (52 - k))) / 2 ^ (52 - k)"
proof -
  have x: "0 < x" using assms(1) by (rule less_le_trans [rotated]) simp
  have e: "\<lfloor>log 2 x\<rfloor> = int k" by (rule floor_log2 [OF assms(1,2)])
  have "2 powr (real k - 52) = 2 powr (- real (52 - k))"
    using assms(3) by (simp add: of_nat_diff)
  also have "\<dots> = 1 / 2 ^ (52 - k)"
    by (simp add: powr_minus powr_realpow inverse_eq_divide)
  finally have u: "2 powr (real k - 52) = 1 / 2 ^ (52 - k)" .
  from x show ?thesis by (simp add: py_float_def e u Let_def)
qed

lemma py_float_124_3: "py_float (124 / 3) = 5817149518686891 / 2 ^ 47"
proof -
  have "py_float (124 / 3) = of_int (round_half_even (124 / 3 * 2 ^ (52 - 5))) / 2 ^ (52 - 5)"
    by (rule py_float_normal) simp_all
  moreover have "round_half_even (124 / 3 * 2 ^ 47) = 5817149518686891"
    by (simp add: round_half_even_def Let_def)
  ultimately show ?thesis by simp
qed

lemma py_float_repr: "py_float 41.333333333333336 = 5817149518686891 / 2 ^ 47"
proof -
  have "py_float 41.333333333333336
        = of_int (round_half_even (41.333333333333336 * 2 ^ (52 - 5))) / 2 ^ (52 - 5)"
    by (rule py_float_normal) simp_all
  moreover have "round_half_even (41.333333333333336 * 2 ^ 47) = 5817149518686891"
    by (simp add: round_half_even_def Let_def)
  ultimately show ?thesis by simp
qed


text \<open>
  C5. Whatever antiderivative of \<open>x\<^sup>2\<close> the integration returns, its value at 5
  minus its value at 1 is exactly the rational 124/3. The conversion of 124/3 to a
  float is the binary64 number \<open>5817149518686891 / 2\<^sup>4\<^sup>7\<close>: it has a 53-bit
  significand, lies within half a unit in the last place, \<open>2\<^sup>-\<^sup>4\<^sup>8\<close>, of 124/3, and
  is the binary64 number that the decimal 41.333333333333336 denotes, itself less
  than half a unit in the last place away.
\<close>

theorem first_integral_exact:
  assumes "antiderivative (integrate (\<lambda>x. x ^ 2)) (\<lambda>x. x ^ 2)"
  shows "first_analytical integrate = 124 / 3
       \<and> py_float (first_analytical integrate) = 5817149518686891 / 2 ^ 47
       \<and> py_float 41.333333333333336 = 5817149518686891 / 2 ^ 47
       \<and> py_float (first_analytical integrate) = py_float 41.333333333333336
       \<and> (2::real) ^ 52 \<le> 5817149518686891 \<and> (5817149518686891::real) < 2 ^ 53
       \<and> \<bar>py_float (first_analytical integrate) - 124 / 3\<bar> \<le> 1 / 2 ^ 48
       \<and> \<bar>py_float (first_analytical integrate) - 41.333333333333336\<bar> < 1 / 2 ^ 48"
proof -
  have "integrate (\<lambda>x. x ^ 2) 5 - integrate (\<lambda>x. x ^ 2) 1 = 5 ^ 3 / 3 - 1 ^ 3 / 3"
    using assms cube_antiderivative by (rule antiderivative_difference)
  then have exact: "first_analytical integrate = 124 / 3"
    by (simp add: first_analytical_def Let_def)
  then have conv: "py_float (first_analytical integrate) = 5817149518686891 / 2 ^ 47"
    by (simp only: py_float_124_3)
  have same: "py_float (first_analytical integrate) = py_float 41.333333333333336"
    by (simp only: conv py_float_repr)
  have bits: "(2::real) ^ 52 \<le> 5817149518686891" "(5817149518686891::real) < 2 ^ 53"
    by simp_all
  have "\<bar>5817149518686891 / 2 ^ 47 - 124 / 3\<bar> \<le> (1 / 2 ^ 48 :: real)"
    by simp
  then have near: "\<bar>py_float (first_analytical integrate) - 124 / 3\<bar> \<le> 1 / 2 ^ 48"
    by (simp only: conv)
  have "\<bar>5817149518686891 / 2 ^ 47 - 41.333333333333336\<bar> < (1 / 2 ^ 48 :: real)"
    by simp
  then have repr: "\<bar>py_float (first_analytical integrate) - 41.333333333333336\<bar> < 1 / 2 ^ 48"
    by (simp only: conv)
  show ?thesis
    by (intro conjI exact conv py_float_repr same bits near repr)
qed

theorem first_integral_exact_witness:
  "first_analytical (\<lambda>f x. x ^ 3 / 3) = 124 / 3
   \<and> py_float (first_analytical (\<lambda>f x. x ^ 3 / 3)) = 5817149518686891 / 2 ^ 47
   \<and> py_float 41.333333333333336 = 5817149518686891 / 2 ^ 47
   \<and> \<bar>py_float (first_analytical (\<lambda>f x. x ^ 3 / 3)) - 124 / 3\<bar> \<le> 1 / 2 ^ 48"
proof -
  note t = first_integral_exact [of "\<lambda>f x. x ^ 3 / 3", OF cube_antiderivative]
  from t have a: "first_analytical (\<lambda>f x. x ^ 3 / 3) = 124 / 3"
    by (rule conjunct1)
  from t have b: "py_float (first_analytical (\<lambda>f x. x ^ 3 / 3)) = 5817149518686891 / 2 ^ 47"
    by (rule conjunct1 [OF conjunct2])
  from t have c: "py_float 41.333333333333336 = 5817149518686891 / 2 ^ 47"
    by (rule conjunct1 [OF conjunct2 [OF conjunct2]])
  from t have d: "\<bar>py_float (first_analytical (\<lambda>f x. x ^ 3 / 3)) - 124 / 3\<bar> \<le> 1 / 2 ^ 48"
    by blast
  show ?thesis by (intro conjI a b c d)
qed

section \<open>Numerical value of the second integral\<close>

text \<open>
  Sines and cosines are enclosed by their Maclaurin polynomials of degree 29, whose
  thirty terms are rational numbers, and the remainder bound \<open>\<bar>x\<bar>\<^sup>3\<^sup>0 / 30!\<close>.
\<close>

lemma sum30: "(\<Sum>m<30. f (m::nat)) = (f 0 + f 1 + f 2 + f 3 + f 4 + f 5 + f 6 + f 7 + f 8 + f 9 + f 10 + f 11 + f 12 + f 13 + f 14 + f 15 + f 16 + f 17 + f 18 + f 19 + f 20 + f 21 + f 22 + f 23 + f 24 + f 25 + f 26 + f 27 + f 28 + f 29 :: real)"
  by (simp add: eval_nat_numeral)

lemma cos_bound:
  "\<bar>cos x - (\<Sum>m<n. cos_coeff m * x ^ m)\<bar> \<le> inverse (fact n) * \<bar>x\<bar> ^ n"
proof -
  obtain t where "cos x = (\<Sum>m<n. cos_coeff m * x ^ m)
                    + cos (t + 1 / 2 * real n * pi) / fact n * x ^ n"
    using Maclaurin_cos_expansion [of x n] by blast
  then have "\<bar>cos x - (\<Sum>m<n. cos_coeff m * x ^ m)\<bar>
             = \<bar>cos (t + 1 / 2 * real n * pi)\<bar> / fact n * \<bar>x\<bar> ^ n"
    by (simp add: abs_mult power_abs)
  also have "\<dots> \<le> 1 / fact n * \<bar>x\<bar> ^ n"
    by (intro mult_right_mono divide_right_mono) simp_all
  finally show ?thesis by (simp add: inverse_eq_divide)
qed


lemma approx_chain:
  fixes x s a :: real
  assumes "\<bar>x - s\<bar> \<le> e1" and "e1 \<le> d" and "\<bar>s - a\<bar> \<le> e2"
  shows "a - (d + e2) \<le> x \<and> x \<le> a + (d + e2)"
  using assms by linarith

lemma sin_2_approx:
  "0.90929742682568170 - 1 / 10 ^ 16 \<le> sin (2::real) \<and> sin (2::real) \<le> 0.90929742682568170 + 1 / 10 ^ 16"
proof -
  have "\<bar>sin 2 - (\<Sum>m<30. sin_coeff m * 2 ^ m)\<bar> \<le> inverse (fact 30) * \<bar>2\<bar> ^ 30"
    by (rule Maclaurin_sin_bound)
  moreover have "inverse (fact 30) * \<bar>2::real\<bar> ^ 30 \<le> 1 / 10 ^ 17"
    by (simp add: fact_numeral)
  moreover have "\<bar>(\<Sum>m<30. sin_coeff m * (2::real) ^ m) - (0.90929742682568170)\<bar> \<le> 5 / 10 ^ 17"
    by (simp add: sum30 sin_coeff_def fact_numeral)
  ultimately have "(0.90929742682568170) - (1 / 10 ^ 17 + 5 / 10 ^ 17) \<le> sin (2::real)
      \<and> sin (2::real) \<le> (0.90929742682568170) + (1 / 10 ^ 17 + 5 / 10 ^ 17)"
    by (rule approx_chain)
  then show ?thesis by simp
qed

lemma sin_3_approx:
  "0.14112000805986722 - 1 / 10 ^ 16 \<le> sin (3::real) \<and> sin (3::real) \<le> 0.14112000805986722 + 1 / 10 ^ 16"
proof -
  have "\<bar>sin 3 - (\<Sum>m<30. sin_coeff m * 3 ^ m)\<bar> \<le> inverse (fact 30) * \<bar>3\<bar> ^ 30"
    by (rule Maclaurin_sin_bound)
  moreover have "inverse (fact 30) * \<bar>3::real\<bar> ^ 30 \<le> 1 / 10 ^ 17"
    by (simp add: fact_numeral)
  moreover have "\<bar>(\<Sum>m<30. sin_coeff m * (3::real) ^ m) - (0.14112000805986722)\<bar> \<le> 5 / 10 ^ 17"
    by (simp add: sum30 sin_coeff_def fact_numeral)
  ultimately have "(0.14112000805986722) - (1 / 10 ^ 17 + 5 / 10 ^ 17) \<le> sin (3::real)
      \<and> sin (3::real) \<le> (0.14112000805986722) + (1 / 10 ^ 17 + 5 / 10 ^ 17)"
    by (rule approx_chain)
  then show ?thesis by simp
qed

lemma cos_2_approx:
  "- 0.41614683654714239 - 1 / 10 ^ 16 \<le> cos (2::real) \<and> cos (2::real) \<le> - 0.41614683654714239 + 1 / 10 ^ 16"
proof -
  have "\<bar>cos 2 - (\<Sum>m<30. cos_coeff m * 2 ^ m)\<bar> \<le> inverse (fact 30) * \<bar>2\<bar> ^ 30"
    by (rule cos_bound)
  moreover have "inverse (fact 30) * \<bar>2::real\<bar> ^ 30 \<le> 1 / 10 ^ 17"
    by (simp add: fact_numeral)
  moreover have "\<bar>(\<Sum>m<30. cos_coeff m * (2::real) ^ m) - (- 0.41614683654714239)\<bar> \<le> 5 / 10 ^ 17"
    by (simp add: sum30 cos_coeff_def fact_numeral)
  ultimately have "(- 0.41614683654714239) - (1 / 10 ^ 17 + 5 / 10 ^ 17) \<le> cos (2::real)
      \<and> cos (2::real) \<le> (- 0.41614683654714239) + (1 / 10 ^ 17 + 5 / 10 ^ 17)"
    by (rule approx_chain)
  then show ?thesis by simp
qed

lemma cos_3_approx:
  "- 0.98999249660044546 - 1 / 10 ^ 16 \<le> cos (3::real) \<and> cos (3::real) \<le> - 0.98999249660044546 + 1 / 10 ^ 16"
proof -
  have "\<bar>cos 3 - (\<Sum>m<30. cos_coeff m * 3 ^ m)\<bar> \<le> inverse (fact 30) * \<bar>3\<bar> ^ 30"
    by (rule cos_bound)
  moreover have "inverse (fact 30) * \<bar>3::real\<bar> ^ 30 \<le> 1 / 10 ^ 17"
    by (simp add: fact_numeral)
  moreover have "\<bar>(\<Sum>m<30. cos_coeff m * (3::real) ^ m) - (- 0.98999249660044546)\<bar> \<le> 5 / 10 ^ 17"
    by (simp add: sum30 cos_coeff_def fact_numeral)
  ultimately have "(- 0.98999249660044546) - (1 / 10 ^ 17 + 5 / 10 ^ 17) \<le> cos (3::real)
      \<and> cos (3::real) \<le> (- 0.98999249660044546) + (1 / 10 ^ 17 + 5 / 10 ^ 17)"
    by (rule approx_chain)
  then show ?thesis by simp
qed

lemma second_value:
  "\<bar>(3 ^ 3 / 3 - 4 * 3 * cos 3 + 4 * sin 3) - (2 ^ 3 / 3 - 4 * 2 * cos 2 + 4 * sin 2)
    - (11.811358925098283::real)\<bar> \<le> 1 / 10 ^ 14"
proof -
  have "11.811358925098283 - 1 / 10 ^ 14
        \<le> (3 ^ 3 / 3 - 4 * 3 * cos 3 + 4 * sin 3) - (2 ^ 3 / 3 - 4 * 2 * cos 2 + 4 * sin (2::real))"
    using sin_2_approx sin_3_approx cos_2_approx cos_3_approx by simp
  moreover have "(3 ^ 3 / 3 - 4 * 3 * cos 3 + 4 * sin 3) - (2 ^ 3 / 3 - 4 * 2 * cos 2 + 4 * sin (2::real))
        \<le> 11.811358925098283 + 1 / 10 ^ 14"
    using sin_2_approx sin_3_approx cos_2_approx cos_3_approx by simp
  ultimately show ?thesis by (simp only: abs_diff_le_iff)
qed

text \<open>
  C6. The second problem is computed over the interval from 2 to 3 on both paths.
  The analytical cell substitutes the upper bound 3 and the lower bound 2, in this
  order, and its value is positive and within \<open>10\<^sup>-\<^sup>1\<^sup>4\<close> of 11.811358925098283 (the
  limits 3 to 2 of the task text would give the negative of it). The sampling cell
  draws its \<open>i\<close>-th point as \<open>2 + (3 - 2) * u\<^sub>i\<close> from the generator's \<open>i\<close>-th variate,
  one variate per point, which lies between 2 and 3 for a variate of the unit
  interval and reaches both ends; it sums the integrand at these points and
  multiplies by the measure \<open>3 - 2\<close>.
\<close>

theorem second_integral_over_2_3:
  assumes "antiderivative (integrate (\<lambda>x. x ^ 2 + 4 * x * sin x)) (\<lambda>x. x ^ 2 + 4 * x * sin x)"
  shows "second_analytical integrate
           = integrate (\<lambda>x. x ^ 2 + 4 * x * sin x) 3 - integrate (\<lambda>x. x ^ 2 + 4 * x * sin x) 2
       \<and> \<bar>second_analytical integrate - 11.811358925098283\<bar> \<le> 1 / 10 ^ 14
       \<and> 0 < second_analytical integrate
       \<and> second_monte_carlo N g
           = py_truediv
               ((3 - 2) * (\<Sum>i<N. (point 2 3 g i) ^ 2 + 4 * point 2 3 g i * sin (point 2 3 g i)))
               (real N)
       \<and> (0 \<le> g !! k \<and> g !! k \<le> 1 \<longrightarrow> 2 \<le> point 2 3 g k \<and> point 2 3 g k \<le> 3)
       \<and> uniform 2 3 g = (2 + (3 - 2) * shd g, stl g)
       \<and> point 2 3 g k = 2 + (3 - 2) * g !! k
       \<and> second_monte_carlo N g
           = py_truediv
               ((3 - 2) * (\<Sum>i<N. (2 + (3 - 2) * g !! i) ^ 2
                               + 4 * (2 + (3 - 2) * g !! i) * sin (2 + (3 - 2) * g !! i)))
               (real N)
       \<and> (0 \<le> g !! k \<and> g !! k \<le> 1 \<longrightarrow>
            2 \<le> 2 + (3 - 2) * g !! k \<and> 2 + (3 - 2) * g !! k \<le> 3)"
proof -
  let ?d1 = "integrate (\<lambda>x. x ^ 2 + 4 * x * sin x)"
  have sol: "second_analytical integrate = ?d1 3 - ?d1 2"
    by (simp add: second_analytical_def Let_def)
  have "?d1 3 - ?d1 2
        = (3 ^ 3 / 3 - 4 * 3 * cos 3 + 4 * sin 3) - (2 ^ 3 / 3 - 4 * 2 * cos 2 + 4 * sin 2)"
    using assms second_antiderivative by (rule antiderivative_difference)
  with second_value have "\<bar>?d1 3 - ?d1 2 - 11.811358925098283\<bar> \<le> 1 / 10 ^ 14"
    by (simp only:)
  then have near: "\<bar>second_analytical integrate - 11.811358925098283\<bar> \<le> 1 / 10 ^ 14"
    by (simp only: sol)
  then have "11.811358925098283 - 1 / 10 ^ 14 \<le> second_analytical integrate"
    by (simp only: abs_diff_le_iff)
  moreover have "(0::real) < 11.811358925098283 - 1 / 10 ^ 14"
    by simp
  ultimately have pos: "0 < second_analytical integrate"
    by (rule less_le_trans [rotated])
  have range: "0 \<le> g !! k \<and> g !! k \<le> 1 \<longrightarrow> 2 \<le> point 2 3 g k \<and> point 2 3 g k \<le> 3"
    using point_range [of 2 3 g k] by simp
  have draw: "uniform 2 3 g = (2 + (3 - 2) * shd g, stl g)"
    by (simp add: uniform_def)
  have pt: "point 2 3 g k = 2 + (3 - 2) * g !! k"
    by (rule point_eq)
  have cell: "second_monte_carlo N g
           = py_truediv
               ((3 - 2) * (\<Sum>i<N. (point 2 3 g i) ^ 2 + 4 * point 2 3 g i * sin (point 2 3 g i)))
               (real N)"
    by (rule second_monte_carlo_eq)
  have cell': "second_monte_carlo N g
           = py_truediv
               ((3 - 2) * (\<Sum>i<N. (2 + (3 - 2) * g !! i) ^ 2
                               + 4 * (2 + (3 - 2) * g !! i) * sin (2 + (3 - 2) * g !! i)))
               (real N)"
    using cell by (simp only: point_eq)
  have range': "0 \<le> g !! k \<and> g !! k \<le> 1 \<longrightarrow>
            2 \<le> 2 + (3 - 2) * g !! k \<and> 2 + (3 - 2) * g !! k \<le> 3"
    using range by (simp only: point_eq)
  show ?thesis
    by (intro conjI sol near pos cell range draw pt cell' range')
qed

theorem second_integral_over_2_3_witness:
  "\<bar>second_analytical (\<lambda>f x. x ^ 3 / 3 - 4 * x * cos x + 4 * sin x) - 11.811358925098283\<bar>
     \<le> 1 / 10 ^ 14
   \<and> second_monte_carlo 2 (0 ## 1 ## sconst (1 / 4))
       = Inr (Finite ((4 + 8 * sin 2 + (9 + 12 * sin 3)) / 2))
   \<and> uniform 2 3 (0 ## 1 ## sconst (1 / 4)) = (2, 1 ## sconst (1 / 4))
   \<and> point 2 3 (0 ## 1 ## sconst (1 / 4)) 0 = 2
   \<and> point 2 3 (0 ## 1 ## sconst (1 / 4)) 1 = 3
   \<and> point 2 3 (0 ## 1 ## sconst (1 / 4)) 2 = 9 / 4"
proof -
  let ?int = "\<lambda>(f::real \<Rightarrow> real) x::real. x ^ 3 / 3 - 4 * x * cos x + 4 * sin x"
  let ?g = "0 ## 1 ## sconst (1 / 4 :: real)"
  note t = second_integral_over_2_3 [of ?int _ ?g, OF second_antiderivative]
  have a: "\<bar>second_analytical ?int - 11.811358925098283\<bar> \<le> 1 / 10 ^ 14"
    using t [of 0 0] by (rule conjunct1 [OF conjunct2])
  have "second_monte_carlo 2 ?g
      = py_truediv ((3 - 2) * (\<Sum>i<2. (2 + (3 - 2) * ?g !! i) ^ 2
           + 4 * (2 + (3 - 2) * ?g !! i) * sin (2 + (3 - 2) * ?g !! i))) (real 2)"
    using t [of 2 0] by blast
  then have b: "second_monte_carlo 2 ?g = Inr (Finite ((4 + 8 * sin 2 + (9 + 12 * sin 3)) / 2))"
    by (simp add: py_truediv_def numeral_2_eq_2)
  have "uniform 2 3 ?g = (2 + (3 - 2) * shd ?g, stl ?g)"
    using t [of 0 0] by blast
  then have c: "uniform 2 3 ?g = (2, 1 ## sconst (1 / 4))"
    by simp
  have "point 2 3 ?g 0 = 2 + (3 - 2) * ?g !! 0"
    using t [of 0 0] by blast
  then have d: "point 2 3 ?g 0 = 2" by simp
  have "point 2 3 ?g 1 = 2 + (3 - 2) * ?g !! 1"
    using t [of 0 1] by blast
  then have e: "point 2 3 ?g 1 = 3" by simp
  have "point 2 3 ?g 2 = 2 + (3 - 2) * ?g !! 2"
    using t [of 0 2] by blast
  then have f: "point 2 3 ?g 2 = 9 / 4" by (simp add: numeral_2_eq_2)
  show ?thesis by (intro conjI a b c d e f)
qed

section \<open>The two-dimensional integral\<close>








































end
